theory Spec2Isabelle
  imports Main
begin

section \<open>The monitor command of the incus client (cmd/incus/monitor.go)\<close>

text \<open>
  The command validates its options, connects to a server, opens an event listener,
  registers a handler that renders every event, and returns the first value that
  arrives on a one-slot error channel. The collaborators that are not part of the file
  (argument check, remote resolution, the server connection, the event decoder, the
  serialisers and the text formatter) are parameters of the model; everything the file
  itself computes is a definition below, in the order of the source.
\<close>

subsection \<open>Errors\<close>

text \<open>
  Every error value the command can return. The first two are built by \<open>Run\<close>, the third
  by the level parser of the logging library, the last stands for any error reported by
  a collaborator. A Go \<open>error\<close> that may be nil is an \<open>error option\<close>. The messages
  are the untranslated ones; the parser quotes the token, written here as for a token
  without characters to escape.
\<close>

datatype error =
    ErrInvalidFormat string
  | ErrLogLevelNotPretty
  | ErrNotValidLevel string
  | ErrExternal string

fun error_message :: "error \<Rightarrow> string" where
  "error_message (ErrInvalidFormat f) = ''Invalid format: '' @ f"
| "error_message ErrLogLevelNotPretty =
     ''Log level filtering can only be used with pretty formatting''"
| "error_message (ErrNotValidLevel l) =
     ''not a valid logrus Level: '' @ [CHR 0x22] @ l @ [CHR 0x22]"
| "error_message (ErrExternal m) = m"

subsection \<open>Severity levels of the logging library\<close>

text \<open>
  The levels are numbered in the order of their declaration, the most urgent first, so a
  greater number is a less urgent level. The handler compares these numbers.
\<close>

datatype Level =
  PanicLevel | FatalLevel | ErrorLevel | WarnLevel | InfoLevel | DebugLevel | TraceLevel

fun level_num :: "Level \<Rightarrow> nat" where
  "level_num PanicLevel = 0"
| "level_num FatalLevel = 1"
| "level_num ErrorLevel = 2"
| "level_num WarnLevel = 3"
| "level_num InfoLevel = 4"
| "level_num DebugLevel = 5"
| "level_num TraceLevel = 6"

text \<open>
  Lower-casing, on the bytes of a UTF-8 string. The characters whose lower case is an
  ASCII letter are the letters \<open>A\<close> to \<open>Z\<close>, the dotted capital I (U+0130, the bytes
  \<open>C4 B0\<close>), whose lower case is \<open>i\<close>, and the Kelvin sign (U+212A, the bytes
  \<open>E2 84 AA\<close>), whose lower case is \<open>k\<close>. The lower case of any other character is
  again outside ASCII; such bytes are left as they are, which makes no difference to a
  comparison with the level names, all of them ASCII.
\<close>

definition toLower_char :: "char \<Rightarrow> char" where
  "toLower_char ch =
     (case map_of (zip ''ABCDEFGHIJKLMNOPQRSTUVWXYZ'' ''abcdefghijklmnopqrstuvwxyz'') ch of
        Some l \<Rightarrow> l
      | None \<Rightarrow> ch)"

fun ToLower :: "string \<Rightarrow> string" where
  "ToLower (a # b # c # rest) =
     (if a = CHR 0xE2 \<and> b = CHR 0x84 \<and> c = CHR 0xAA then CHR ''k'' # ToLower rest
      else if a = CHR 0xC4 \<and> b = CHR 0xB0 then CHR ''i'' # ToLower (c # rest)
      else toLower_char a # ToLower (b # c # rest))"
| "ToLower [a, b] =
     (if a = CHR 0xC4 \<and> b = CHR 0xB0 then [CHR ''i'']
      else [toLower_char a, toLower_char b])"
| "ToLower [a] = [toLower_char a]"
| "ToLower [] = []"

text \<open>
  \<open>ParseLevel\<close>: the level a token denotes, whatever its case, or an error that quotes
  the token.
\<close>

definition ParseLevel :: "string \<Rightarrow> error + Level" where
  "ParseLevel lvl =
     (let l = ToLower lvl in
      if l = ''panic'' then Inr PanicLevel
      else if l = ''fatal'' then Inr FatalLevel
      else if l = ''error'' then Inr ErrorLevel
      else if l = ''warn'' \<or> l = ''warning'' then Inr WarnLevel
      else if l = ''info'' then Inr InfoLevel
      else if l = ''debug'' then Inr DebugLevel
      else if l = ''trace'' then Inr TraceLevel
      else Inl (ErrNotValidLevel lvl))"

subsection \<open>unpackCtx\<close>

text \<open>
  The loop keeps two variables, the map \<open>out\<close> and the pending \<open>key\<close>, where the empty
  string means that no key is pending. \<open>sp\<close> is the display-string conversion
  (\<open>fmt.Sprintf("%v", entry)\<close>) of the token type.
\<close>

fun unpackCtx_loop ::
  "('a \<Rightarrow> string) \<Rightarrow> 'a list \<Rightarrow> (string \<rightharpoonup> string) \<times> string \<Rightarrow> (string \<rightharpoonup> string) \<times> string"
where
  "unpackCtx_loop sp [] (out, key) = (out, key)"
| "unpackCtx_loop sp (entry # ctx) (out, key) =
     (if key = [] then unpackCtx_loop sp ctx (out, sp entry)
      else unpackCtx_loop sp ctx (out(key \<mapsto> sp entry), []))"

definition unpackCtx :: "('a \<Rightarrow> string) \<Rightarrow> 'a list \<Rightarrow> (string \<rightharpoonup> string)" where
  "unpackCtx sp ctx = fst (unpackCtx_loop sp ctx (Map.empty, []))"

text \<open>
  A few of the dynamically typed values a context can hold, with their display strings,
  for the concrete examples.
\<close>

datatype any = AString string | ANat nat | ABool bool | ANil

fun digits :: "nat \<Rightarrow> string" where
  "digits n =
     (if n < 10 then [''0123456789'' ! n]
      else digits (n div 10) @ [''0123456789'' ! (n mod 10)])"

declare digits.simps [simp del]

fun Sprintf_v :: "any \<Rightarrow> string" where
  "Sprintf_v (AString s) = s"
| "Sprintf_v (ANat n) = digits n"
| "Sprintf_v (ABool b) = (if b then ''true'' else ''false'')"
| "Sprintf_v ANil = ''<nil>''"

text \<open>
  The unpacker as the specification words it: the display strings are paired by
  position, key then value, an unmatched last key is dropped, and of two pairs with the
  same key the later one counts.
\<close>

fun pairs :: "'b list \<Rightarrow> ('b \<times> 'b) list" where
  "pairs (k # v # rest) = (k, v) # pairs rest"
| "pairs [k] = []"
| "pairs [] = []"

definition unpack_spec :: "('a \<Rightarrow> string) \<Rightarrow> 'a list \<Rightarrow> (string \<rightharpoonup> string)" where
  "unpack_spec sp tokens = map_of (rev (pairs (map sp tokens)))"

definition keys_nonempty :: "('a \<Rightarrow> string) \<Rightarrow> 'a list \<Rightarrow> bool" where
  "keys_nonempty sp tokens = list_all (\<lambda>kv. fst kv \<noteq> []) (pairs (map sp tokens))"

subsection \<open>Data of the command\<close>

text \<open>The flags of the command, as the struct \<open>cmdMonitor\<close> has them.\<close>

record cmdMonitor =
  flagType :: "string list"
  flagPretty :: bool
  flagLogLevel :: string
  flagAllProjects :: bool
  flagFormat :: string

text \<open>
  An event as it arrives, its payload being raw bytes; the log record the decoder makes
  of it; the entry handed to the text formatter. Time stamps are opaque and taken as
  numbers.
\<close>

record Event =
  Type :: string
  Timestamp :: nat
  Metadata :: string
  Location :: string
  Project :: string

record 'a EventLogRecord =
  Time :: nat
  Lvl :: string
  Msg :: string
  Ctx :: "'a list"

record Entry =
  Data :: "string \<rightharpoonup> string"
  Message :: string
  Entry_Time :: nat
  Entry_Level :: Level

subsection \<open>Collaborators\<close>

text \<open>
  What the command calls and does not define. A listener answers the registration of a
  handler; a server says whether it is clustered and opens a listener for the current
  project or for all projects. \<open>'a\<close> is the type of dynamically typed values: the
  tokens of a log context and the generic tree an event is decoded to.
\<close>

record listener =
  AddHandler :: "string list \<Rightarrow> error option"

record server =
  IsClustered :: bool
  GetEvents :: "error + listener"
  GetEventsAllProjects :: "error + listener"

record 'a collab =
  checkArgs :: "string list \<Rightarrow> bool \<times> error option"
  ParseRemote :: "string \<Rightarrow> error + string"
  GetInstanceServer :: "string \<Rightarrow> error + server"
  ToLogging :: "Event \<Rightarrow> error + 'a EventLogRecord"
  Sprintf :: "'a \<Rightarrow> string"
  Format :: "Entry \<Rightarrow> error + string"
  json_Marshal_event :: "Event \<Rightarrow> error + string"
  json_Unmarshal :: "string \<Rightarrow> error + 'a"
  yaml_Marshal :: "'a \<Rightarrow> error + string"
  json_Marshal :: "'a \<Rightarrow> error + string"

text \<open>The calls \<open>Run\<close> makes to the outside, recorded in the order they are made.\<close>

datatype call =
    CallParseRemote string
  | CallGetInstanceServer string
  | CallGetEvents
  | CallGetEventsAllProjects
  | CallAddHandler "string list"

subsection \<open>Run: the checks on the options\<close>

text \<open>
  The format must be one of the three names; then the pretty flag replaces it; then a
  log level is refused unless the format is pretty. The struct is updated in place, so
  the checked flags are returned.
\<close>

definition setup_format :: "cmdMonitor \<Rightarrow> cmdMonitor" where
  "setup_format c = (if flagPretty c then c\<lparr>flagFormat := ''pretty''\<rparr> else c)"

definition validate :: "cmdMonitor \<Rightarrow> error + cmdMonitor" where
  "validate c =
     (if flagFormat c \<notin> set [''json'', ''pretty'', ''yaml'']
      then Inl (ErrInvalidFormat (flagFormat c))
      else
        let c = setup_format c in
        if flagFormat c \<noteq> ''pretty'' \<and> flagLogLevel c \<noteq> []
        then Inl ErrLogLevelNotPretty
        else Inr c)"

subsection \<open>Run: connecting to the event source\<close>

definition open_call :: "cmdMonitor \<Rightarrow> call" where
  "open_call c = (if flagAllProjects c then CallGetEventsAllProjects else CallGetEvents)"

definition connect ::
  "'a collab \<Rightarrow> cmdMonitor \<Rightarrow> string list \<Rightarrow> (error + server \<times> listener) \<times> call list"
where
  "connect w c args =
     (let name = (if length args = 0 then [] else hd args) in
      case ParseRemote w name of
        Inl err \<Rightarrow> (Inl err, [CallParseRemote name])
      | Inr remote \<Rightarrow>
          (case GetInstanceServer w remote of
             Inl err \<Rightarrow> (Inl err, [CallParseRemote name, CallGetInstanceServer remote])
           | Inr d \<Rightarrow>
               (case (if flagAllProjects c then GetEventsAllProjects d else GetEvents d) of
                  Inl err \<Rightarrow>
                    (Inl err,
                     [CallParseRemote name, CallGetInstanceServer remote, open_call c])
                | Inr l \<Rightarrow>
                    (Inr (d, l),
                     [CallParseRemote name, CallGetInstanceServer remote, open_call c]))))"

subsection \<open>The handler\<close>

text \<open>The entry built for a record that passed the level filter.\<close>

definition make_entry ::
  "'a collab \<Rightarrow> bool \<Rightarrow> Event \<Rightarrow> 'a EventLogRecord \<Rightarrow> Level \<Rightarrow> Entry"
where
  "make_entry w clustered event record msgLevel =
     \<lparr>Data = unpackCtx (Sprintf w) (Ctx record),
      Message =
        (if Type event = ''logging'' \<and> clustered
         then ''['' @ Location event @ ''] '' @ Msg record
         else Msg record),
      Entry_Time = Time record,
      Entry_Level = msgLevel\<rparr>"

text \<open>The alias of the debug level is replaced before the level is parsed.\<close>

definition normalize_level :: "'a EventLogRecord \<Rightarrow> 'a EventLogRecord" where
  "normalize_level record = (if Lvl record = ''dbug'' then record\<lparr>Lvl := ''debug''\<rparr> else record)"

text \<open>
  One invocation of the handler on an event. It returns the text it prints on standard
  output and the error it sends on the channel, if it sends one. \<open>c\<close> holds the flags
  after the checks, \<open>logLevel\<close> is the threshold, \<open>clustered\<close> is what the server answers
  to \<open>IsClustered\<close>.
\<close>

definition handler ::
  "'a collab \<Rightarrow> cmdMonitor \<Rightarrow> Level \<Rightarrow> bool \<Rightarrow> Event \<Rightarrow> string \<times> error option"
where
  "handler w c logLevel clustered event =
     (if flagFormat c = ''pretty'' then
        (case ToLogging w event of
           Inl err \<Rightarrow> ([], Some err)
         | Inr record0 \<Rightarrow>
             let record = normalize_level record0 in
             (case ParseLevel (Lvl record) of
                Inl err \<Rightarrow> ([], Some err)
              | Inr msgLevel \<Rightarrow>
                  if level_num msgLevel > level_num logLevel then ([], None)
                  else
                    (case Format w (make_entry w clustered event record msgLevel) of
                       Inl err \<Rightarrow> ([], Some err)
                     | Inr line \<Rightarrow> (line, None))))
      else
        (case json_Marshal_event w event of
           Inl err \<Rightarrow> ([], Some err)
         | Inr jsonRender \<Rightarrow>
             (case json_Unmarshal w jsonRender of
                Inl err \<Rightarrow> ([], Some err)
              | Inr rawEvent \<Rightarrow>
                  (case (if flagFormat c = ''yaml'' then yaml_Marshal w rawEvent
                         else if flagFormat c = ''json'' then json_Marshal w rawEvent
                         else Inr []) of
                     Inl err \<Rightarrow> ([], Some err)
                   | Inr render \<Rightarrow> (render @ [CHR 0x0A, CHR 0x0A], None)))))"

subsection \<open>Run: from the argument check to the registration of the handler\<close>

text \<open>
  \<open>Run\<close> either returns early, or has registered the handler and waits for the channel.
  In the second case the flags, the threshold and the server are what the handler
  closes over.
\<close>

datatype progress = Return "error option" | Await cmdMonitor Level server

definition Run_prologue :: "'a collab \<Rightarrow> cmdMonitor \<Rightarrow> string list \<Rightarrow> progress \<times> call list" where
  "Run_prologue w c args =
     (case checkArgs w args of
        (True, err) \<Rightarrow> (Return err, [])
      | (False, _) \<Rightarrow>
          (case validate c of
             Inl err \<Rightarrow> (Return (Some err), [])
           | Inr c \<Rightarrow>
               (case connect w c args of
                  (Inl err, calls) \<Rightarrow> (Return (Some err), calls)
                | (Inr (d, l), calls) \<Rightarrow>
                    (case (if flagLogLevel c \<noteq> [] then ParseLevel (flagLogLevel c)
                           else Inr DebugLevel) of
                       Inl err \<Rightarrow> (Return (Some err), calls)
                     | Inr logLevel \<Rightarrow>
                         (case AddHandler l (flagType c) of
                            Some err \<Rightarrow>
                              (Return (Some err), calls @ [CallAddHandler (flagType c)])
                          | None \<Rightarrow>
                              (Await c logLevel d,
                               calls @ [CallAddHandler (flagType c)]))))))"

subsection \<open>Run: waiting for the first signal\<close>

text \<open>
  After the registration three activities run side by side: the listener calls the
  handler once for every event it delivers, a goroutine sends the result of the
  listener's \<open>Wait\<close> on the channel, and \<open>Run\<close> receives one value from the channel and
  returns it. The channel has room for one value: a send finds room or blocks, a
  receive takes the oldest value and lets the sender that has been blocked longest put
  its value in the freed slot.

  The activities are interleaved by a schedule, a list of actions: \<open>Deliver\<close> is one
  call of the handler, \<open>Closed r\<close> is \<open>Wait\<close> returning \<open>r\<close> and the goroutine starting
  its send, \<open>Receive\<close> is the receive of \<open>Run\<close>. An action that cannot take place (a
  second closure of the listener, a receive from the empty channel or after \<open>Run\<close> has
  returned) leaves the state as it is. Events may be delivered while an earlier call of
  the handler is blocked in its send, as calls in goroutines of their own would be; a
  listener that delivers one event at a time has fewer schedules, not other ones.
  \<open>signals\<close> is a history of the values sent or waiting to be sent, in the order the
  sends were started; the program does not read it.
\<close>

record session =
  chError :: "error option list"
  stdout :: string
  blocked :: "error option list"
  waiting :: bool
  returned :: "error option option"
  signals :: "error option list"

definition init_session :: session where
  "init_session =
     \<lparr>chError = [], stdout = [], blocked = [], waiting = True, returned = None,
      signals = []\<rparr>"

definition send :: "error option \<Rightarrow> session \<Rightarrow> session" where
  "send v s =
     (if length (chError s) < 1
      then s\<lparr>chError := chError s @ [v], signals := signals s @ [v]\<rparr>
      else s\<lparr>blocked := blocked s @ [v], signals := signals s @ [v]\<rparr>)"

datatype action = Deliver Event | Closed "error option" | Receive

fun step :: "'a collab \<Rightarrow> cmdMonitor \<Rightarrow> Level \<Rightarrow> server \<Rightarrow> action \<Rightarrow> session \<Rightarrow> session" where
  "step w c logLevel d (Deliver event) s =
     (case handler w c logLevel (IsClustered d) event of
        (out, None) \<Rightarrow> s\<lparr>stdout := stdout s @ out\<rparr>
      | (out, Some err) \<Rightarrow> send (Some err) (s\<lparr>stdout := stdout s @ out\<rparr>))"
| "step w c logLevel d (Closed r) s =
     (if waiting s then send r (s\<lparr>waiting := False\<rparr>) else s)"
| "step w c logLevel d Receive s =
     (case returned s of
        Some v \<Rightarrow> s
      | None \<Rightarrow>
          (case chError s of
             [] \<Rightarrow> s
           | v # rest \<Rightarrow>
               s\<lparr>returned := Some v,
                 chError := rest @ take 1 (blocked s),
                 blocked := drop 1 (blocked s)\<rparr>))"

definition session_run ::
  "'a collab \<Rightarrow> cmdMonitor \<Rightarrow> Level \<Rightarrow> server \<Rightarrow> action list \<Rightarrow> session"
where
  "session_run w c logLevel d sched = fold (step w c logLevel d) sched init_session"

text \<open>
  The whole of \<open>Run\<close> under a schedule: what it returned (\<open>None\<close> while it still waits
  for the channel), the calls it made and what was printed.
\<close>

record outcome =
  result :: "error option option"
  calls :: "call list"
  printed :: string

definition Run :: "'a collab \<Rightarrow> cmdMonitor \<Rightarrow> string list \<Rightarrow> action list \<Rightarrow> outcome" where
  "Run w c args sched =
     (case Run_prologue w c args of
        (Return r, cs) \<Rightarrow> \<lparr>result = Some r, calls = cs, printed = []\<rparr>
      | (Await c' logLevel d, cs) \<Rightarrow>
          (let s = session_run w c' logLevel d sched in
           \<lparr>result = returned s, calls = cs, printed = stdout s\<rparr>))"

text \<open>
  What holds of the channel in every state a schedule can reach: at most one value is
  buffered, a sender is blocked only while the slot is taken, and until \<open>Run\<close> has
  received, the values signalled are the buffered one followed by the blocked ones.
\<close>

definition session_inv :: "session \<Rightarrow> bool" where
  "session_inv s =
     (length (chError s) \<le> 1
      \<and> (chError s = [] \<longrightarrow> blocked s = [])
      \<and> (case returned s of
            None \<Rightarrow> signals s = chError s @ blocked s
          | Some v \<Rightarrow> signals s \<noteq> [] \<and> hd (signals s) = v))"

text \<open>The schedules in which the feed delivers no event, and the closures of a schedule.\<close>

fun is_Deliver :: "action \<Rightarrow> bool" where
  "is_Deliver (Deliver event) = True"
| "is_Deliver (Closed r) = False"
| "is_Deliver Receive = False"

definition no_deliver :: "action list \<Rightarrow> bool" where
  "no_deliver sched = list_all (\<lambda>a. \<not> is_Deliver a) sched"

fun closures :: "action list \<Rightarrow> error option list" where
  "closures [] = []"
| "closures (Deliver event # sched) = closures sched"
| "closures (Closed r # sched) = r # closures sched"
| "closures (Receive # sched) = closures sched"

text \<open>
  The values put on the channel under a schedule, in the order the sends are started,
  read off the schedule alone: a delivery contributes the error its handler call sends,
  if it sends one, and the first closure contributes the result of \<open>Wait\<close>. \<open>wt\<close> says
  whether \<open>Wait\<close> is still to return.
\<close>

fun sends ::
  "'a collab \<Rightarrow> cmdMonitor \<Rightarrow> Level \<Rightarrow> server \<Rightarrow> bool \<Rightarrow> action list \<Rightarrow> error option list"
where
  "sends w c logLevel d wt [] = []"
| "sends w c logLevel d wt (Deliver event # sched) =
     (case snd (handler w c logLevel (IsClustered d) event) of
        None \<Rightarrow> sends w c logLevel d wt sched
      | Some err \<Rightarrow> Some err # sends w c logLevel d wt sched)"
| "sends w c logLevel d wt (Closed r # sched) =
     (if wt then r # sends w c logLevel d False sched
      else sends w c logLevel d False sched)"
| "sends w c logLevel d wt (Receive # sched) = sends w c logLevel d wt sched"

definition signalled ::
  "'a collab \<Rightarrow> cmdMonitor \<Rightarrow> Level \<Rightarrow> server \<Rightarrow> action list \<Rightarrow> error option list"
where
  "signalled w c logLevel d sched = sends w c logLevel d True sched"

subsection \<open>Blank lines at the end of a text\<close>

text \<open>
  A text that ends in \<open>n\<close> newline characters after its last other character ends that
  line and is followed by \<open>n - 1\<close> blank lines.
\<close>

definition trailing_newlines :: "string \<Rightarrow> nat" where
  "trailing_newlines out = length (takeWhile (\<lambda>ch. ch = CHR 0x0A) (rev out))"

definition blank_lines_after :: "string \<Rightarrow> nat" where
  "blank_lines_after out = trailing_newlines out - 1"

subsection \<open>A sample environment\<close>

text \<open>
  A concrete set of collaborators for the instances below: at most one argument is
  accepted, every remote resolves, the server is clustered and opens a listener, the
  decoder reads the level of a logging event from its payload, gives a lifecycle event
  the level \<open>info\<close> and refuses any other event, the formatter prints the level number
  and the message on one line, the JSON encoders return text without a final newline
  and the YAML encoder ends its document with a newline.
\<close>

definition sample_listener :: listener where
  "sample_listener = \<lparr>AddHandler = (\<lambda>types. None)\<rparr>"

definition sample_server :: server where
  "sample_server =
     \<lparr>IsClustered = True, GetEvents = Inr sample_listener,
      GetEventsAllProjects = Inr sample_listener\<rparr>"

definition sample :: "any collab" where
  "sample =
     \<lparr>checkArgs = (\<lambda>args. if length args > 1
                           then (True, Some (ErrExternal ''Invalid number of arguments''))
                           else (False, None)),
      ParseRemote = (\<lambda>name. Inr (if name = [] then ''local'' else name)),
      GetInstanceServer = (\<lambda>remote. Inr sample_server),
      ToLogging = (\<lambda>event.
         if Type event = ''logging''
         then Inr \<lparr>Time = Timestamp event, Lvl = Metadata event, Msg = ''started'',
                   Ctx = [AString ''id'', ANat 2]\<rparr>
         else if Type event = ''lifecycle''
         then Inr \<lparr>Time = Timestamp event, Lvl = ''info'',
                   Msg = ''Action: '' @ Metadata event, Ctx = []\<rparr>
         else Inl (ErrExternal ''Not supported event type'')),
      Sprintf = Sprintf_v,
      Format = (\<lambda>entry. Inr (digits (level_num (Entry_Level entry)) @ '' ''
                              @ Message entry @ [CHR 0x0A])),
      json_Marshal_event = (\<lambda>event. Inr (Type event)),
      json_Unmarshal = (\<lambda>bytes. Inr (AString bytes)),
      yaml_Marshal = (\<lambda>v. Inr (''type: '' @ Sprintf_v v @ [CHR 0x0A])),
      json_Marshal = (\<lambda>v. Inr (''{type:'' @ Sprintf_v v @ ''}''))\<rparr>"

definition sample_event :: "string \<Rightarrow> string \<Rightarrow> Event" where
  "sample_event ty payload =
     \<lparr>Type = ty, Timestamp = 7, Metadata = payload, Location = ''node1'',
      Project = ''default''\<rparr>"

definition flags :: "string \<Rightarrow> bool \<Rightarrow> string \<Rightarrow> cmdMonitor" where
  "flags format pretty loglevel =
     \<lparr>flagType = [], flagPretty = pretty, flagLogLevel = loglevel,
      flagAllProjects = False, flagFormat = format\<rparr>"

section \<open>Properties\<close>

subsection \<open>The context unpacker\<close>

lemma unpackCtx_loop_append:
  "unpackCtx_loop sp (xs @ ys) st = unpackCtx_loop sp ys (unpackCtx_loop sp xs st)"
proof (induction xs arbitrary: st)
  case Nil
  show ?case by (cases st) simp
next
  case (Cons x xs)
  show ?case by (cases st) (simp add: Cons.IH)
qed

lemma unpackCtx_loop_pairs:
  "keys_nonempty sp ctx \<Longrightarrow>
   fst (unpackCtx_loop sp ctx (out, [])) = out ++ map_of (rev (pairs (map sp ctx)))"
proof (induction ctx arbitrary: out rule: pairs.induct)
  case (1 k v rest)
  from "1.prems" have k: "sp k \<noteq> []" and rest: "keys_nonempty sp rest"
    by (simp_all add: keys_nonempty_def)
  have "fst (unpackCtx_loop sp (k # v # rest) (out, [])) =
        fst (unpackCtx_loop sp rest (out(sp k \<mapsto> sp v), []))"
    using k by simp
  also have "\<dots> = out(sp k \<mapsto> sp v) ++ map_of (rev (pairs (map sp rest)))"
    by (rule "1.IH" [OF rest])
  also have "\<dots> = out ++ map_of (rev (pairs (map sp (k # v # rest))))"
    by (simp add: map_add_upd_left [symmetric] fun_eq_iff map_add_def split: option.splits)
  finally show ?case .
next
  case (2 k)
  show ?case by simp
next
  case 3
  show ?case by simp
qed

lemma digits_1: "digits (Suc 0) = ''1''"
  by (simp add: digits.simps)

lemma digits_2: "digits 2 = ''2''"
  by (simp add: digits.simps)

text \<open>
  C4 (as stated, refuted). The claim that every token sequence is paired by position
  fails when a token in key position has the empty display string: on the tokens
  \<open>""\<close>, \<open>a\<close>, \<open>1\<close> the positional pairing maps the empty key to \<open>a\<close> and drops \<open>1\<close>, while
  the unpacker skips the empty token and maps \<open>a\<close> to \<open>1\<close>.
\<close>

theorem unpackCtx_positional_counterexample:
  "unpackCtx Sprintf_v [AString [], AString ''a'', ANat 1] = [''a'' \<mapsto> ''1'']
   \<and> unpack_spec Sprintf_v [AString [], AString ''a'', ANat 1] = [[] \<mapsto> ''a'']
   \<and> unpackCtx Sprintf_v [AString [], AString ''a'', ANat 1]
       \<noteq> unpack_spec Sprintf_v [AString [], AString ''a'', ANat 1]"
proof -
  have a: "unpackCtx Sprintf_v [AString [], AString ''a'', ANat 1] = [''a'' \<mapsto> ''1'']"
    by (simp add: unpackCtx_def digits_1)
  have b: "unpack_spec Sprintf_v [AString [], AString ''a'', ANat 1] = [[] \<mapsto> ''a'']"
    by (simp add: unpack_spec_def)
  have "[''a'' \<mapsto> ''1''] ''a'' \<noteq> [[] \<mapsto> ''a''] ''a''"
    by simp
  then have c: "[''a'' \<mapsto> ''1''] \<noteq> [[] \<mapsto> ''a'']"
    by metis
  from a b c show ?thesis by simp
qed

text \<open>
  C4 (amended). For every token sequence in which no token paired as a key has the empty
  display string, the unpacker returns the positional pairing of the display strings:
  alternating key and value in arrival order, an unmatched last key dropped, the later
  of two equal keys winning; it is a total function, so it always succeeds. In
  particular \<open>[a, 1, b, 2]\<close> gives \<open>{a: "1", b: "2"}\<close>, \<open>[a, 1, b]\<close> gives \<open>{a: "1"}\<close>,
  \<open>[]\<close> gives the empty map, and \<open>[a, 1, a, 2]\<close> gives \<open>{a: "2"}\<close>.
\<close>

theorem unpackCtx_pairs:
  "(keys_nonempty sp ctx \<longrightarrow> unpackCtx sp ctx = unpack_spec sp ctx)
   \<and> unpackCtx Sprintf_v [AString ''a'', ANat 1, AString ''b'', ANat 2]
       = [''a'' \<mapsto> ''1'', ''b'' \<mapsto> ''2'']
   \<and> unpackCtx Sprintf_v [AString ''a'', ANat 1, AString ''b''] = [''a'' \<mapsto> ''1'']
   \<and> unpackCtx Sprintf_v [] = Map.empty
   \<and> unpackCtx Sprintf_v [AString ''a'', ANat 1, AString ''a'', ANat 2] = [''a'' \<mapsto> ''2'']"
proof -
  have "keys_nonempty sp ctx \<longrightarrow> unpackCtx sp ctx = unpack_spec sp ctx"
    by (simp add: unpackCtx_def unpack_spec_def unpackCtx_loop_pairs)
  moreover have "unpackCtx Sprintf_v [AString ''a'', ANat 1, AString ''b'', ANat 2]
       = [''a'' \<mapsto> ''1'', ''b'' \<mapsto> ''2'']"
    by (simp add: unpackCtx_def digits_1 digits_2)
  moreover have "unpackCtx Sprintf_v [AString ''a'', ANat 1, AString ''b''] = [''a'' \<mapsto> ''1'']"
    by (simp add: unpackCtx_def digits_1)
  moreover have "unpackCtx Sprintf_v [] = Map.empty"
    by (simp add: unpackCtx_def)
  moreover have "unpackCtx Sprintf_v [AString ''a'', ANat 1, AString ''a'', ANat 2]
       = [''a'' \<mapsto> ''2'']"
    by (simp add: unpackCtx_def digits_1 digits_2)
  ultimately show ?thesis by blast
qed

theorem unpackCtx_pairs_witness:
  "keys_nonempty Sprintf_v [AString ''k'', ABool True, ANil, AString ''v'', AString ''z'']
   \<and> unpackCtx Sprintf_v [AString ''k'', ABool True, ANil, AString ''v'', AString ''z'']
       = unpack_spec Sprintf_v [AString ''k'', ABool True, ANil, AString ''v'', AString ''z'']
   \<and> unpack_spec Sprintf_v [AString ''k'', ABool True, ANil, AString ''v'', AString ''z'']
       ''<nil>'' = Some ''v''"
proof -
  have h: "keys_nonempty Sprintf_v
             [AString ''k'', ABool True, ANil, AString ''v'', AString ''z'']"
    by (simp add: keys_nonempty_def)
  show ?thesis
    using h unpackCtx_pairs [of Sprintf_v
        "[AString ''k'', ABool True, ANil, AString ''v'', AString ''z'']"]
    by (simp add: unpack_spec_def)
qed

text \<open>
  C10. A token that is reached while no key is pending and whose display string is
  empty is not used as a key: the loop leaves the map unchanged and still has no key
  pending, so the token after it is taken as the next key and the result is that of the
  sequence without the token. On \<open>["", a, 1, b, 2]\<close> the pairing is shifted for the rest
  of the sequence: the result is \<open>{a: "1", b: "2"}\<close>, where the positional pairing
  has the keys \<open>""\<close> and \<open>"1"\<close>.
\<close>

theorem unpackCtx_empty_key_skipped:
  "(sp t = [] \<longrightarrow>
      unpackCtx_loop sp (t # rest) (out, []) = unpackCtx_loop sp rest (out, []))
   \<and> (sp t = [] \<and> snd (unpackCtx_loop sp pre (Map.empty, [])) = [] \<longrightarrow>
      unpackCtx sp (pre @ t # rest) = unpackCtx sp (pre @ rest))
   \<and> unpackCtx Sprintf_v [AString [], AString ''a'', ANat 1, AString ''b'', ANat 2]
       = [''a'' \<mapsto> ''1'', ''b'' \<mapsto> ''2'']
   \<and> unpack_spec Sprintf_v [AString [], AString ''a'', ANat 1, AString ''b'', ANat 2]
       = [''1'' \<mapsto> ''b'', [] \<mapsto> ''a'']"
proof -
  have a: "sp t = [] \<longrightarrow>
      unpackCtx_loop sp (t # rest) (out, []) = unpackCtx_loop sp rest (out, [])"
    by simp
  have b: "sp t = [] \<and> snd (unpackCtx_loop sp pre (Map.empty, [])) = [] \<longrightarrow>
      unpackCtx sp (pre @ t # rest) = unpackCtx sp (pre @ rest)"
  proof
    assume h: "sp t = [] \<and> snd (unpackCtx_loop sp pre (Map.empty, [])) = []"
    obtain m where m: "unpackCtx_loop sp pre (Map.empty, []) = (m, [])"
      using h by (cases "unpackCtx_loop sp pre (Map.empty, [])") simp
    show "unpackCtx sp (pre @ t # rest) = unpackCtx sp (pre @ rest)"
      using h by (simp add: unpackCtx_def unpackCtx_loop_append m)
  qed
  have c: "unpackCtx Sprintf_v [AString [], AString ''a'', ANat 1, AString ''b'', ANat 2]
       = [''a'' \<mapsto> ''1'', ''b'' \<mapsto> ''2'']"
    by (simp add: unpackCtx_def digits_1 digits_2)
  have d: "unpack_spec Sprintf_v [AString [], AString ''a'', ANat 1, AString ''b'', ANat 2]
       = [''1'' \<mapsto> ''b'', [] \<mapsto> ''a'']"
    by (simp add: unpack_spec_def digits_1 fun_eq_iff)
  from a b c d show ?thesis by blast
qed

theorem unpackCtx_empty_key_skipped_witness:
  "Sprintf_v (AString []) = []
   \<and> snd (unpackCtx_loop Sprintf_v [AString ''x'', ANat 2] (Map.empty, [])) = []
   \<and> unpackCtx_loop Sprintf_v [AString [], AString ''a'', ANat 1] (Map.empty, [])
       = unpackCtx_loop Sprintf_v [AString ''a'', ANat 1] (Map.empty, [])
   \<and> unpackCtx Sprintf_v ([AString ''x'', ANat 2] @ AString [] # [AString ''a'', ANat 1])
       = unpackCtx Sprintf_v ([AString ''x'', ANat 2] @ [AString ''a'', ANat 1])
   \<and> unpackCtx Sprintf_v ([AString ''x'', ANat 2] @ [AString ''a'', ANat 1]) ''a''
       = Some ''1''"
proof -
  have h1: "Sprintf_v (AString []) = []" by simp
  have h2: "snd (unpackCtx_loop Sprintf_v [AString ''x'', ANat 2] (Map.empty, [])) = []"
    by simp
  have u: "unpackCtx Sprintf_v ([AString ''x'', ANat 2] @ [AString ''a'', ANat 1]) ''a''
       = Some ''1''"
    by (simp add: unpackCtx_def digits_1)
  show ?thesis
    using h1 h2 u
      unpackCtx_empty_key_skipped [of Sprintf_v "AString []" "[AString ''a'', ANat 1]"
        Map.empty "[AString ''x'', ANat 2]"]
    by blast
qed

subsection \<open>The checks on the options\<close>


lemma Run_prologue_cong:
  "validate c = validate c' \<Longrightarrow> Run_prologue w c args = Run_prologue w c' args"
  by (simp add: Run_prologue_def split: prod.splits bool.splits)

lemma Run_cong:
  "validate c = validate c' \<Longrightarrow> Run w c args sched = Run w c' args sched"
  by (simp add: Run_def Run_prologue_cong [of c c'])

text \<open>
  C2 (as stated, refuted). The format is checked before the pretty flag replaces it, so
  an explicit format outside the three names is refused although the flag is set: with
  format \<open>xml\<close> and the pretty flag, the run returns the invalid-format error.
\<close>

theorem pretty_flag_invalid_format_counterexample:
  "validate (flags ''xml'' True []) = Inl (ErrInvalidFormat ''xml'')
   \<and> result (Run sample (flags ''xml'' True []) [] []) = Some (Some (ErrInvalidFormat ''xml''))"
  by (simp add: validate_def flags_def Run_def Run_prologue_def sample_def)

text \<open>
  C2 (amended). For every explicit format among \<open>json\<close>, \<open>pretty\<close> and \<open>yaml\<close>, if the
  pretty flag is set then the resolved format is \<open>pretty\<close> and both the checks and the
  whole run proceed as for the format \<open>pretty\<close>. Every other explicit format is refused
  as an invalid format, also when the flag is set.
\<close>

theorem pretty_flag_overrides:
  "(flagPretty c \<and> flagFormat c \<in> set [''json'', ''pretty'', ''yaml''] \<longrightarrow>
      flagFormat (setup_format c) = ''pretty''
      \<and> validate c = Inr (c\<lparr>flagFormat := ''pretty''\<rparr>)
      \<and> validate c = validate (c\<lparr>flagFormat := ''pretty''\<rparr>)
      \<and> Run w c args sched = Run w (c\<lparr>flagFormat := ''pretty''\<rparr>) args sched)
   \<and> (flagFormat c \<notin> set [''json'', ''pretty'', ''yaml''] \<longrightarrow>
      validate c = Inl (ErrInvalidFormat (flagFormat c)))"
proof -
  have a: "validate c = Inr (c\<lparr>flagFormat := ''pretty''\<rparr>)"
    and b: "validate c = validate (c\<lparr>flagFormat := ''pretty''\<rparr>)"
    and f: "flagFormat (setup_format c) = ''pretty''"
    if "flagPretty c" "flagFormat c \<in> set [''json'', ''pretty'', ''yaml'']"
    using that by (simp_all add: validate_def setup_format_def)
  have r: "Run w c args sched = Run w (c\<lparr>flagFormat := ''pretty''\<rparr>) args sched"
    if "flagPretty c" "flagFormat c \<in> set [''json'', ''pretty'', ''yaml'']"
    using b [OF that] by (rule Run_cong)
  have e: "flagFormat c \<notin> set [''json'', ''pretty'', ''yaml''] \<longrightarrow>
      validate c = Inl (ErrInvalidFormat (flagFormat c))"
    by (simp add: validate_def)
  from a b f r e show ?thesis by blast
qed

theorem pretty_flag_overrides_witness:
  "flagPretty (flags ''json'' True []) 
   \<and> flagFormat (flags ''json'' True []) \<in> set [''json'', ''pretty'', ''yaml'']
   \<and> validate (flags ''json'' True []) = Inr (flags ''pretty'' True [])
   \<and> flagFormat (flags ''xml'' False []) \<notin> set [''json'', ''pretty'', ''yaml'']
   \<and> validate (flags ''xml'' False []) = Inl (ErrInvalidFormat ''xml'')"
  using pretty_flag_overrides [of "flags ''json'' True []" sample "[]" "[]"]
    pretty_flag_overrides [of "flags ''xml'' False []" sample "[]" "[]"]
  by (simp add: flags_def)

subsection \<open>The log level is parsed after the feed is opened\<close>

lemma ParseLevel_bogus: "ParseLevel ''bogus'' = Inl (ErrNotValidLevel ''bogus'')"
  by (simp add: ParseLevel_def toLower_char_def)

lemma ParseLevel_info: "ParseLevel ''info'' = Inr InfoLevel"
  by (simp add: ParseLevel_def toLower_char_def)




lemma ParseLevel_upper_case: "ParseLevel ''WARNING'' = Inr WarnLevel"
  by (simp add: ParseLevel_def toLower_char_def)

lemma ParseLevel_dotted_I:
  "ParseLevel [CHR 0xC4, CHR 0xB0, CHR ''N'', CHR ''f'', CHR ''o''] = Inr InfoLevel"
  by (simp add: ParseLevel_def toLower_char_def)

lemma validate_flagLogLevel: "validate c = Inr c' \<Longrightarrow> flagLogLevel c' = flagLogLevel c"
  by (auto simp: validate_def setup_format_def Let_def split: if_splits)

lemma connect_no_AddHandler: "connect w c args = (r, cs) \<Longrightarrow> CallAddHandler ts \<notin> set cs"
  by (auto simp: connect_def Let_def open_call_def split: sum.splits if_splits)

lemma connect_opened:
  "connect w c args = (Inr (d, l), cs) \<Longrightarrow> open_call c \<in> set cs"
  by (auto simp: connect_def Let_def split: sum.splits)

text \<open>
  C1 (as stated, refuted). The claim that an unparseable log level is detected before
  subscribing, with no feed ever opened, fails: \<open>Run\<close> parses the level only after it has
  resolved the remote, connected to the server and opened the listener. With the
  format \<open>pretty\<close>, the level \<open>bogus\<close> and collaborators that succeed, the run returns
  the parse error after it has called \<open>GetEvents\<close>.
\<close>

theorem loglevel_parsed_after_feed_opened_counterexample:
  "Run sample (flags ''pretty'' False ''bogus'') [] [] =
     \<lparr>result = Some (Some (ErrNotValidLevel ''bogus'')),
      calls = [CallParseRemote [], CallGetInstanceServer ''local'', CallGetEvents],
      printed = []\<rparr>
   \<and> CallGetEvents \<in> set (calls (Run sample (flags ''pretty'' False ''bogus'') [] []))"
  by (simp add: Run_def Run_prologue_def validate_def setup_format_def flags_def sample_def
      connect_def sample_server_def open_call_def ParseLevel_bogus)

text \<open>
  C1 (amended). If a log-level string is supplied but does not parse into a known level
  (the argument check having passed), the run fails with an error whatever the feed
  does, prints nothing and never registers the handler, so no event is processed. The
  level is parsed after the connection: when the options pass the checks and the feed
  opens, the run returns the parse error with the feed already opened.
\<close>

theorem bad_loglevel_fails:
  assumes "fst (checkArgs w args) = False"
    and "flagLogLevel c \<noteq> []"
    and "ParseLevel (flagLogLevel c) = Inl e"
  shows "(\<exists>err. result (Run w c args sched) = Some (Some err))
    \<and> printed (Run w c args sched) = []
    \<and> CallAddHandler ts \<notin> set (calls (Run w c args sched))
    \<and> (validate c = Inr c' \<and> connect w c' args = (Inr (d, l), cs) \<longrightarrow>
         Run w c args sched = \<lparr>result = Some (Some e), calls = cs, printed = []\<rparr>
         \<and> open_call c' \<in> set cs)"
proof -
  obtain x where ca: "checkArgs w args = (False, x)"
    using assms(1) by (cases "checkArgs w args") simp
  have B: "validate c = Inr c' \<and> connect w c' args = (Inr (d, l), cs) \<longrightarrow>
         Run w c args sched = \<lparr>result = Some (Some e), calls = cs, printed = []\<rparr>
         \<and> open_call c' \<in> set cs"
  proof
    assume h: "validate c = Inr c' \<and> connect w c' args = (Inr (d, l), cs)"
    then have v: "validate c = Inr c'" and con: "connect w c' args = (Inr (d, l), cs)"
      by simp_all
    have ll: "flagLogLevel c' = flagLogLevel c"
      using v by (rule validate_flagLogLevel)
    have "Run w c args sched = \<lparr>result = Some (Some e), calls = cs, printed = []\<rparr>"
      using assms(2,3) by (simp add: Run_def Run_prologue_def ca v con ll)
    moreover have "open_call c' \<in> set cs"
      using con by (rule connect_opened)
    ultimately show "Run w c args sched = \<lparr>result = Some (Some e), calls = cs, printed = []\<rparr>
         \<and> open_call c' \<in> set cs" by simp
  qed
  have A: "(\<exists>err. result (Run w c args sched) = Some (Some err))
    \<and> printed (Run w c args sched) = []
    \<and> CallAddHandler ts \<notin> set (calls (Run w c args sched))"
  proof (cases "validate c")
    case (Inl err)
    then show ?thesis
      by (simp add: Run_def Run_prologue_def ca)
  next
    case (Inr c1)
    have ll: "flagLogLevel c1 = flagLogLevel c"
      using Inr by (rule validate_flagLogLevel)
    obtain r cs1 where con: "connect w c1 args = (r, cs1)"
      by (cases "connect w c1 args") simp
    have noadd: "CallAddHandler ts \<notin> set cs1"
      using con by (rule connect_no_AddHandler)
    show ?thesis
    proof (cases r)
      case (Inl err)
      then show ?thesis
        using noadd by (simp add: Run_def Run_prologue_def ca \<open>validate c = Inr c1\<close> con)
    next
      case r: (Inr dl)
      obtain d1 l1 where dl: "dl = (d1, l1)" by (cases dl) simp
      show ?thesis
        using noadd assms(2,3)
        by (simp add: Run_def Run_prologue_def ca \<open>validate c = Inr c1\<close> con r dl ll)
    qed
  qed
  from A B show ?thesis by blast
qed

theorem bad_loglevel_fails_witness:
  "fst (checkArgs sample []) = False
   \<and> flagLogLevel (flags ''json'' True ''bogus'') \<noteq> []
   \<and> ParseLevel (flagLogLevel (flags ''json'' True ''bogus'')) = Inl (ErrNotValidLevel ''bogus'')
   \<and> validate (flags ''json'' True ''bogus'') = Inr (flags ''pretty'' True ''bogus'')
   \<and> connect sample (flags ''pretty'' True ''bogus'') [] =
        (Inr (sample_server, sample_listener),
         [CallParseRemote [], CallGetInstanceServer ''local'', CallGetEvents])
   \<and> Run sample (flags ''json'' True ''bogus'') [] [Deliver (sample_event ''logging'' ''info'')] =
        \<lparr>result = Some (Some (ErrNotValidLevel ''bogus'')),
         calls = [CallParseRemote [], CallGetInstanceServer ''local'', CallGetEvents],
         printed = []\<rparr>"
proof -
  have h1: "fst (checkArgs sample []) = False"
    by (simp add: sample_def)
  have h2: "flagLogLevel (flags ''json'' True ''bogus'') \<noteq> []"
    by (simp add: flags_def)
  have h3: "ParseLevel (flagLogLevel (flags ''json'' True ''bogus'')) = Inl (ErrNotValidLevel ''bogus'')"
    by (simp add: flags_def ParseLevel_bogus)
  have h4: "validate (flags ''json'' True ''bogus'') = Inr (flags ''pretty'' True ''bogus'')"
    by (simp add: validate_def setup_format_def flags_def)
  have h5: "connect sample (flags ''pretty'' True ''bogus'') [] =
        (Inr (sample_server, sample_listener),
         [CallParseRemote [], CallGetInstanceServer ''local'', CallGetEvents])"
    by (simp add: connect_def sample_def sample_server_def open_call_def flags_def)
  show ?thesis
    using h1 h2 h3 h4 h5
      bad_loglevel_fails [OF h1 h2 h3,
        where sched = "[Deliver (sample_event ''logging'' ''info'')]"
          and c' = "flags ''pretty'' True ''bogus''"
          and d = sample_server and l = sample_listener
          and cs = "[CallParseRemote [], CallGetInstanceServer ''local'', CallGetEvents]"]
    by simp
qed

subsection \<open>A log level needs the pretty format\<close>

lemma ParseLevel_Nil: "ParseLevel [] = Inl (ErrNotValidLevel [])"
  by (simp add: ParseLevel_def)

lemma setup_format_fields:
  "flagLogLevel (setup_format c) = flagLogLevel c"
  "flagType (setup_format c) = flagType c"
  "flagAllProjects (setup_format c) = flagAllProjects c"
  by (simp_all add: setup_format_def)

text \<open>
  C8. Whenever a log-level string is supplied and the resolved format is \<open>json\<close> or
  \<open>yaml\<close>, the checks fail with the error that names log level filtering and pretty
  formatting, and the run (its argument check passed) returns it without any call to
  the outside and without printing, whatever the feed would deliver. Whenever the
  resolved format is \<open>pretty\<close> and the string parses to a level, the checks accept the
  flags, and with a connection and a registration that succeed the run reaches its
  waiting state with that level as threshold.
\<close>

theorem loglevel_requires_pretty:
  "(flagLogLevel c \<noteq> [] \<and> flagFormat (setup_format c) \<in> set [''json'', ''yaml''] \<longrightarrow>
      validate c = Inl ErrLogLevelNotPretty
      \<and> (fst (checkArgs w args) = False \<longrightarrow>
           Run w c args sched =
             \<lparr>result = Some (Some ErrLogLevelNotPretty), calls = [], printed = []\<rparr>))
   \<and> (flagFormat c \<in> set [''json'', ''pretty'', ''yaml'']
        \<and> flagFormat (setup_format c) = ''pretty''
        \<and> ParseLevel (flagLogLevel c) = Inr lvl \<longrightarrow>
      validate c = Inr (setup_format c)
      \<and> (fst (checkArgs w args) = False
           \<and> connect w (setup_format c) args = (Inr (d, l), cs)
           \<and> AddHandler l (flagType c) = None \<longrightarrow>
           Run_prologue w c args =
             (Await (setup_format c) lvl d, cs @ [CallAddHandler (flagType c)])))
   \<and> error_message ErrLogLevelNotPretty =
       ''Log level filtering can only be used with pretty formatting''"
proof -
  have A: "validate c = Inl ErrLogLevelNotPretty"
    if "flagLogLevel c \<noteq> []" "flagFormat (setup_format c) \<in> set [''json'', ''yaml'']"
    using that by (auto simp: validate_def setup_format_def split: if_splits)
  have A': "Run w c args sched =
             \<lparr>result = Some (Some ErrLogLevelNotPretty), calls = [], printed = []\<rparr>"
    if h: "flagLogLevel c \<noteq> []" "flagFormat (setup_format c) \<in> set [''json'', ''yaml'']"
      "fst (checkArgs w args) = False"
  proof -
    obtain x where ca: "checkArgs w args = (False, x)"
      using h(3) by (cases "checkArgs w args") simp
    show ?thesis
      by (simp add: Run_def Run_prologue_def ca A [OF h(1,2)])
  qed
  have B: "validate c = Inr (setup_format c)"
    if "flagFormat c \<in> set [''json'', ''pretty'', ''yaml'']"
      "flagFormat (setup_format c) = ''pretty''"
    using that by (simp add: validate_def)
  have B': "Run_prologue w c args =
             (Await (setup_format c) lvl d, cs @ [CallAddHandler (flagType c)])"
    if h: "flagFormat c \<in> set [''json'', ''pretty'', ''yaml'']"
      "flagFormat (setup_format c) = ''pretty''"
      "ParseLevel (flagLogLevel c) = Inr lvl"
      "fst (checkArgs w args) = False"
      "connect w (setup_format c) args = (Inr (d, l), cs)"
      "AddHandler l (flagType c) = None"
  proof -
    obtain x where ca: "checkArgs w args = (False, x)"
      using h(4) by (cases "checkArgs w args") simp
    have ne: "flagLogLevel c \<noteq> []"
      using h(3) by (auto simp: ParseLevel_Nil)
    show ?thesis
      using ne h(3,5,6)
      by (simp add: Run_prologue_def ca B [OF h(1,2)] setup_format_fields)
  qed
  have C: "error_message ErrLogLevelNotPretty =
       ''Log level filtering can only be used with pretty formatting''"
    by simp
  from A A' B B' C show ?thesis by blast
qed

theorem loglevel_requires_pretty_witness:
  "flagLogLevel (flags ''yaml'' False ''info'') \<noteq> []
   \<and> flagFormat (setup_format (flags ''yaml'' False ''info'')) \<in> set [''json'', ''yaml'']
   \<and> fst (checkArgs sample []) = False
   \<and> Run sample (flags ''yaml'' False ''info'') [] [Deliver (sample_event ''logging'' ''info'')] =
        \<lparr>result = Some (Some ErrLogLevelNotPretty), calls = [], printed = []\<rparr>
   \<and> flagFormat (flags ''json'' True ''info'') \<in> set [''json'', ''pretty'', ''yaml'']
   \<and> flagFormat (setup_format (flags ''json'' True ''info'')) = ''pretty''
   \<and> ParseLevel (flagLogLevel (flags ''json'' True ''info'')) = Inr InfoLevel
   \<and> connect sample (setup_format (flags ''json'' True ''info'')) [] =
        (Inr (sample_server, sample_listener),
         [CallParseRemote [], CallGetInstanceServer ''local'', CallGetEvents])
   \<and> AddHandler sample_listener (flagType (flags ''json'' True ''info'')) = None
   \<and> validate (flags ''json'' True ''info'') = Inr (flags ''pretty'' True ''info'')
   \<and> Run_prologue sample (flags ''json'' True ''info'') [] =
        (Await (flags ''pretty'' True ''info'') InfoLevel sample_server,
         [CallParseRemote [], CallGetInstanceServer ''local'', CallGetEvents,
          CallAddHandler []])"
proof -
  have h1: "flagLogLevel (flags ''yaml'' False ''info'') \<noteq> []"
    by (simp add: flags_def)
  have h2: "flagFormat (setup_format (flags ''yaml'' False ''info'')) \<in> set [''json'', ''yaml'']"
    by (simp add: flags_def setup_format_def)
  have h3: "fst (checkArgs sample []) = False"
    by (simp add: sample_def)
  have h4: "flagFormat (flags ''json'' True ''info'') \<in> set [''json'', ''pretty'', ''yaml'']"
    by (simp add: flags_def)
  have h5: "flagFormat (setup_format (flags ''json'' True ''info'')) = ''pretty''"
    by (simp add: flags_def setup_format_def)
  have h6: "ParseLevel (flagLogLevel (flags ''json'' True ''info'')) = Inr InfoLevel"
    by (simp add: flags_def ParseLevel_info)
  have h7: "connect sample (setup_format (flags ''json'' True ''info'')) [] =
        (Inr (sample_server, sample_listener),
         [CallParseRemote [], CallGetInstanceServer ''local'', CallGetEvents])"
    by (simp add: connect_def sample_def sample_server_def open_call_def flags_def
        setup_format_def)
  have h8: "AddHandler sample_listener (flagType (flags ''json'' True ''info'')) = None"
    by (simp add: sample_listener_def)
  have s: "setup_format (flags ''json'' True ''info'') = flags ''pretty'' True ''info''"
    by (simp add: flags_def setup_format_def)
  have t: "flagType (flags ''json'' True ''info'') = []"
    by (simp add: flags_def)
  note thm1 = loglevel_requires_pretty [where c = "flags ''yaml'' False ''info''"
      and w = sample and args = "[]"
      and sched = "[Deliver (sample_event ''logging'' ''info'')]"]
  note thm2 = loglevel_requires_pretty [where c = "flags ''json'' True ''info''"
      and w = sample and args = "[]" and lvl = InfoLevel and d = sample_server
      and l = sample_listener
      and cs = "[CallParseRemote [], CallGetInstanceServer ''local'', CallGetEvents]"]
  have r1: "Run sample (flags ''yaml'' False ''info'') []
              [Deliver (sample_event ''logging'' ''info'')] =
        \<lparr>result = Some (Some ErrLogLevelNotPretty), calls = [], printed = []\<rparr>"
    using thm1 h1 h2 h3 by blast
  have r2: "validate (flags ''json'' True ''info'') = Inr (flags ''pretty'' True ''info'')"
    using thm2 h4 h5 h6 s by metis
  have r3: "Run_prologue sample (flags ''json'' True ''info'') [] =
        (Await (flags ''pretty'' True ''info'') InfoLevel sample_server,
         [CallParseRemote [], CallGetInstanceServer ''local'', CallGetEvents,
          CallAddHandler []])"
    using thm2 h3 h4 h5 h6 h7 h8 s t by simp
  from h1 h2 h3 h4 h5 h6 h7 h8 r1 r2 r3 show ?thesis by blast
qed

subsection \<open>The handler on the pretty path\<close>

lemma handler_pretty:
  "flagFormat c = ''pretty'' \<Longrightarrow> ToLogging w e = Inr r \<Longrightarrow>
   ParseLevel (Lvl (normalize_level r)) = Inr m \<Longrightarrow>
   handler w c lvl cl e =
     (if level_num m > level_num lvl then ([], None)
      else (case Format w (make_entry w cl e (normalize_level r) m) of
              Inl err \<Rightarrow> ([], Some err)
            | Inr line \<Rightarrow> (line, None)))"
  by (simp add: handler_def Let_def)


lemma sample_ToLogging:
  "ToLogging sample (sample_event ''logging'' lv) =
     Inr \<lparr>Time = 7, Lvl = lv, Msg = ''started'', Ctx = [AString ''id'', ANat 2]\<rparr>"
  by (simp add: sample_def sample_event_def)

lemma sample_Format:
  "Format sample entry =
     Inr (digits (level_num (Entry_Level entry)) @ '' '' @ Message entry @ [CHR 0x0A])"
  by (simp add: sample_def)




text \<open>
  C7. On the pretty path, for every event that reaches the formatter, the message of the
  entry is the record's message prefixed with the event's location in brackets and a
  space when the event's type is \<open>logging\<close> and the server is clustered, and the record's
  message unchanged in every other case.
\<close>

theorem location_prefix:
  "flagFormat c = ''pretty'' \<and> ToLogging w e = Inr r
     \<and> ParseLevel (Lvl (normalize_level r)) = Inr m \<and> level_num m \<le> level_num lvl \<longrightarrow>
     handler w c lvl cl e =
       (case Format w (make_entry w cl e (normalize_level r) m) of
          Inl err \<Rightarrow> ([], Some err)
        | Inr line \<Rightarrow> (line, None))
     \<and> (Type e = ''logging'' \<and> cl \<longrightarrow>
          Message (make_entry w cl e (normalize_level r) m)
            = ''['' @ Location e @ ''] '' @ Msg r)
     \<and> (\<not> (Type e = ''logging'' \<and> cl) \<longrightarrow>
          Message (make_entry w cl e (normalize_level r) m) = Msg r)"
proof -
  have A: "handler w c lvl cl e =
       (case Format w (make_entry w cl e (normalize_level r) m) of
          Inl err \<Rightarrow> ([], Some err)
        | Inr line \<Rightarrow> (line, None))"
    if h: "flagFormat c = ''pretty''" "ToLogging w e = Inr r"
      "ParseLevel (Lvl (normalize_level r)) = Inr m" "level_num m \<le> level_num lvl"
    using h(4) by (simp add: handler_pretty [OF h(1,2,3)])
  have B: "Type e = ''logging'' \<and> cl \<longrightarrow>
          Message (make_entry w cl e (normalize_level r) m)
            = ''['' @ Location e @ ''] '' @ Msg r"
    by (simp add: make_entry_def normalize_level_def)
  have C: "\<not> (Type e = ''logging'' \<and> cl) \<longrightarrow>
          Message (make_entry w cl e (normalize_level r) m) = Msg r"
    by (simp add: make_entry_def normalize_level_def)
  from A B C show ?thesis by blast
qed

lemma sample_ToLogging_lifecycle:
  "ToLogging sample (sample_event ''lifecycle'' a) =
     Inr \<lparr>Time = 7, Lvl = ''info'', Msg = ''Action: '' @ a, Ctx = []\<rparr>"
  by (simp add: sample_def sample_event_def)

theorem location_prefix_witness:
  "flagFormat (flags ''pretty'' False []) = ''pretty''
   \<and> ToLogging sample (sample_event ''logging'' ''info'') =
        Inr \<lparr>Time = 7, Lvl = ''info'', Msg = ''started'', Ctx = [AString ''id'', ANat 2]\<rparr>
   \<and> ParseLevel (Lvl (normalize_level
        \<lparr>Time = 7, Lvl = ''info'', Msg = ''started'', Ctx = [AString ''id'', ANat 2]\<rparr>))
        = Inr InfoLevel
   \<and> ToLogging sample (sample_event ''lifecycle'' ''x'') =
        Inr \<lparr>Time = 7, Lvl = ''info'', Msg = ''Action: x'', Ctx = []\<rparr>
   \<and> ParseLevel (Lvl (normalize_level
        \<lparr>Time = 7, Lvl = ''info'', Msg = ''Action: x'', Ctx = ([] :: any list)\<rparr>))
        = Inr InfoLevel
   \<and> level_num InfoLevel \<le> level_num DebugLevel
   \<and> Type (sample_event ''logging'' ''info'') = ''logging''
   \<and> Type (sample_event ''lifecycle'' ''x'') \<noteq> ''logging''
   \<and> handler sample (flags ''pretty'' False []) DebugLevel True
        (sample_event ''logging'' ''info'') = (''4 [node1] started'' @ [CHR 0x0A], None)
   \<and> handler sample (flags ''pretty'' False []) DebugLevel False
        (sample_event ''logging'' ''info'') = (''4 started'' @ [CHR 0x0A], None)
   \<and> handler sample (flags ''pretty'' False []) DebugLevel True
        (sample_event ''lifecycle'' ''x'') = (''4 Action: x'' @ [CHR 0x0A], None)"
proof -
  let ?c = "flags ''pretty'' False []"
  let ?r = "\<lparr>Time = 7, Lvl = ''info'', Msg = ''started'', Ctx = [AString ''id'', ANat 2]\<rparr>"
  let ?q = "\<lparr>Time = 7, Lvl = ''info'', Msg = ''Action: x'', Ctx = ([] :: any list)\<rparr>"
  have h1: "flagFormat ?c = ''pretty''"
    by (simp add: flags_def)
  have h2: "ToLogging sample (sample_event ''logging'' ''info'') = Inr ?r"
    by (rule sample_ToLogging)
  have h3: "ParseLevel (Lvl (normalize_level ?r)) = Inr InfoLevel"
    by (simp add: normalize_level_def ParseLevel_info)
  have h4: "ToLogging sample (sample_event ''lifecycle'' ''x'') = Inr ?q"
    using sample_ToLogging_lifecycle [of "''x''"] by simp
  have h5: "ParseLevel (Lvl (normalize_level ?q)) = Inr InfoLevel"
    by (simp add: normalize_level_def ParseLevel_info)
  have h6: "level_num InfoLevel \<le> level_num DebugLevel"
    by simp
  have h7: "Type (sample_event ''logging'' ''info'') = ''logging''"
    by (simp add: sample_event_def)
  have h8: "Type (sample_event ''lifecycle'' ''x'') \<noteq> ''logging''"
    by (simp add: sample_event_def)
  have d4: "digits 4 = ''4''"
    by (simp add: digits.simps)
  note t1 = location_prefix [where c = ?c and w = sample
      and e = "sample_event ''logging'' ''info''" and r = ?r and m = InfoLevel
      and lvl = DebugLevel and cl = True]
  note t2 = location_prefix [where c = ?c and w = sample
      and e = "sample_event ''logging'' ''info''" and r = ?r and m = InfoLevel
      and lvl = DebugLevel and cl = False]
  note t3 = location_prefix [where c = ?c and w = sample
      and e = "sample_event ''lifecycle'' ''x''" and r = ?q and m = InfoLevel
      and lvl = DebugLevel and cl = True]
  have m1: "Message (make_entry sample True (sample_event ''logging'' ''info'')
              (normalize_level ?r) InfoLevel) = ''['' @ ''node1'' @ ''] '' @ ''started''"
    using t1 h1 h2 h3 h6 h7 by (simp add: sample_event_def)
  have m2: "Message (make_entry sample False (sample_event ''logging'' ''info'')
              (normalize_level ?r) InfoLevel) = ''started''"
    using t2 h1 h2 h3 h6 by simp
  have m3: "Message (make_entry sample True (sample_event ''lifecycle'' ''x'')
              (normalize_level ?q) InfoLevel) = ''Action: x''"
    using t3 h1 h4 h5 h6 h8 by simp
  have l: "Entry_Level (make_entry sample cl e r InfoLevel) = InfoLevel" for cl e r
    by (simp add: make_entry_def)
  have r1: "handler sample ?c DebugLevel True (sample_event ''logging'' ''info'')
        = (''4 [node1] started'' @ [CHR 0x0A], None)"
    using t1 h1 h2 h3 h6 by (simp add: sample_Format m1 l d4)
  have r2: "handler sample ?c DebugLevel False (sample_event ''logging'' ''info'')
        = (''4 started'' @ [CHR 0x0A], None)"
    using t2 h1 h2 h3 h6 by (simp add: sample_Format m2 l d4)
  have r3: "handler sample ?c DebugLevel True (sample_event ''lifecycle'' ''x'')
        = (''4 Action: x'' @ [CHR 0x0A], None)"
    using t3 h1 h4 h5 h6 by (simp add: sample_Format m3 l d4)
  from h1 h2 h3 h4 h5 h6 h7 h8 r1 r2 r3 show ?thesis by blast
qed

subsection \<open>The handler on the structured path\<close>

lemma trailing_newlines_append2:
  "trailing_newlines (out @ [CHR 0x0A, CHR 0x0A]) = trailing_newlines out + 2"
  by (simp add: trailing_newlines_def)

lemma handler_structured:
  "flagFormat c = ''json'' \<or> flagFormat c = ''yaml'' \<Longrightarrow>
   json_Marshal_event w e = Inr j \<Longrightarrow> json_Unmarshal w j = Inr raw \<Longrightarrow>
   (if flagFormat c = ''yaml'' then yaml_Marshal w raw else json_Marshal w raw) = Inr render \<Longrightarrow>
   handler w c lvl cl e = (render @ [CHR 0x0A, CHR 0x0A], None)"
  by (auto simp: handler_def split: if_splits)

text \<open>
  C3 (as stated, refuted). The handler prints the rendered text and then two newline
  characters. A YAML document ends with a newline of its own, so on the \<open>yaml\<close> path the
  text of an event is followed by two blank lines, not by exactly one: with an encoder
  that returns \<open>type: logging\<close> and a newline, three newlines end the output.
\<close>

theorem yaml_two_blank_lines_counterexample:
  "handler sample (flags ''yaml'' False []) DebugLevel True (sample_event ''logging'' ''info'')
     = (''type: logging'' @ [CHR 0x0A, CHR 0x0A, CHR 0x0A], None)
   \<and> blank_lines_after (fst (handler sample (flags ''yaml'' False []) DebugLevel True
        (sample_event ''logging'' ''info''))) = 2"
  by (simp add: handler_def flags_def sample_def sample_event_def blank_lines_after_def
      trailing_newlines_def)

text \<open>
  C3 (amended). On the structured path (format \<open>json\<close> or \<open>yaml\<close>), for every event that
  serialises successfully, the rendered text is written to standard output followed by
  exactly two newline characters, and the outputs of successive events follow one
  another. The text is therefore followed by one blank line more than the number of
  newlines it ends with: by exactly one blank line if and only if the rendered text does
  not end with a newline.
\<close>

theorem structured_output:
  "(flagFormat c = ''json'' \<or> flagFormat c = ''yaml'')
     \<and> json_Marshal_event w e = Inr j \<and> json_Unmarshal w j = Inr raw
     \<and> (if flagFormat c = ''yaml'' then yaml_Marshal w raw else json_Marshal w raw)
         = Inr render \<longrightarrow>
     handler w c lvl cl e = (render @ [CHR 0x0A, CHR 0x0A], None)
     \<and> step w c lvl d (Deliver e) s = s\<lparr>stdout := stdout s @ render @ [CHR 0x0A, CHR 0x0A]\<rparr>
     \<and> trailing_newlines (fst (handler w c lvl cl e)) = trailing_newlines render + 2
     \<and> blank_lines_after (fst (handler w c lvl cl e)) = trailing_newlines render + 1
     \<and> (blank_lines_after (fst (handler w c lvl cl e)) = 1 \<longleftrightarrow> trailing_newlines render = 0)"
proof
  assume h: "(flagFormat c = ''json'' \<or> flagFormat c = ''yaml'')
     \<and> json_Marshal_event w e = Inr j \<and> json_Unmarshal w j = Inr raw
     \<and> (if flagFormat c = ''yaml'' then yaml_Marshal w raw else json_Marshal w raw)
         = Inr render"
  have A: "handler w c lvl cl e = (render @ [CHR 0x0A, CHR 0x0A], None)" for cl
    using h handler_structured [of c w e j raw render lvl cl] by blast
  have B: "step w c lvl d (Deliver e) s = s\<lparr>stdout := stdout s @ render @ [CHR 0x0A, CHR 0x0A]\<rparr>"
    by (simp add: A)
  have C: "trailing_newlines (fst (handler w c lvl cl e)) = trailing_newlines render + 2"
    by (simp add: A trailing_newlines_append2)
  have D: "blank_lines_after (fst (handler w c lvl cl e)) = trailing_newlines render + 1"
    by (simp add: blank_lines_after_def C)
  from A B C D
  show "handler w c lvl cl e = (render @ [CHR 0x0A, CHR 0x0A], None)
     \<and> step w c lvl d (Deliver e) s = s\<lparr>stdout := stdout s @ render @ [CHR 0x0A, CHR 0x0A]\<rparr>
     \<and> trailing_newlines (fst (handler w c lvl cl e)) = trailing_newlines render + 2
     \<and> blank_lines_after (fst (handler w c lvl cl e)) = trailing_newlines render + 1
     \<and> (blank_lines_after (fst (handler w c lvl cl e)) = 1 \<longleftrightarrow> trailing_newlines render = 0)"
    by simp
qed

theorem structured_output_witness:
  "(flagFormat (flags ''json'' False []) = ''json'' \<or> flagFormat (flags ''json'' False []) = ''yaml'')
   \<and> json_Marshal_event sample (sample_event ''logging'' ''info'') = Inr ''logging''
   \<and> json_Unmarshal sample ''logging'' = Inr (AString ''logging'')
   \<and> (if flagFormat (flags ''json'' False []) = ''yaml''
       then yaml_Marshal sample (AString ''logging'')
       else json_Marshal sample (AString ''logging'')) = Inr ''{type:logging}''
   \<and> handler sample (flags ''json'' False []) DebugLevel True (sample_event ''logging'' ''info'')
       = (''{type:logging}'' @ [CHR 0x0A, CHR 0x0A], None)
   \<and> blank_lines_after (fst (handler sample (flags ''json'' False []) DebugLevel True
        (sample_event ''logging'' ''info''))) = 1
   \<and> stdout (session_run sample (flags ''json'' False []) DebugLevel sample_server
        [Deliver (sample_event ''logging'' ''info''), Deliver (sample_event ''lifecycle'' ''x'')])
       = ''{type:logging}'' @ [CHR 0x0A, CHR 0x0A] @ ''{type:lifecycle}'' @ [CHR 0x0A, CHR 0x0A]"
proof -
  let ?c = "flags ''json'' False []"
  have h1: "flagFormat ?c = ''json'' \<or> flagFormat ?c = ''yaml''"
    by (simp add: flags_def)
  have h2: "json_Marshal_event sample (sample_event ''logging'' ''info'') = Inr ''logging''"
    by (simp add: sample_def sample_event_def)
  have h3: "json_Unmarshal sample ''logging'' = Inr (AString ''logging'')"
    by (simp add: sample_def)
  have h4: "(if flagFormat ?c = ''yaml''
       then yaml_Marshal sample (AString ''logging'')
       else json_Marshal sample (AString ''logging'')) = Inr ''{type:logging}''"
    by (simp add: sample_def flags_def)
  have g2: "json_Marshal_event sample (sample_event ''lifecycle'' ''x'') = Inr ''lifecycle''"
    by (simp add: sample_def sample_event_def)
  have g3: "json_Unmarshal sample ''lifecycle'' = Inr (AString ''lifecycle'')"
    by (simp add: sample_def)
  have g4: "(if flagFormat ?c = ''yaml''
       then yaml_Marshal sample (AString ''lifecycle'')
       else json_Marshal sample (AString ''lifecycle'')) = Inr ''{type:lifecycle}''"
    by (simp add: sample_def flags_def)
  have tn: "trailing_newlines ''{type:logging}'' = 0"
    by (simp add: trailing_newlines_def)
  note t1 = structured_output [where c = ?c and w = sample
      and e = "sample_event ''logging'' ''info''" and j = "''logging''"
      and raw = "AString ''logging''" and render = "''{type:logging}''"
      and lvl = DebugLevel and cl = True and d = sample_server and s = init_session]
  note t2 = structured_output [where c = ?c and w = sample
      and e = "sample_event ''lifecycle'' ''x''" and j = "''lifecycle''"
      and raw = "AString ''lifecycle''" and render = "''{type:lifecycle}''"
      and lvl = DebugLevel and cl = True and d = sample_server
      and s = "init_session\<lparr>stdout := stdout init_session @ ''{type:logging}'' @ [CHR 0x0A, CHR 0x0A]\<rparr>"]
  have r1: "handler sample ?c DebugLevel True (sample_event ''logging'' ''info'')
       = (''{type:logging}'' @ [CHR 0x0A, CHR 0x0A], None)"
    using t1 h1 h2 h3 h4 by blast
  have r2: "blank_lines_after (fst (handler sample ?c DebugLevel True
        (sample_event ''logging'' ''info''))) = 1"
  proof -
    from t1 h1 h2 h3 h4
    have "blank_lines_after (fst (handler sample ?c DebugLevel True
        (sample_event ''logging'' ''info''))) = trailing_newlines ''{type:logging}'' + 1"
      by blast
    then show ?thesis by (simp only: tn)
  qed
  have s1: "step sample ?c DebugLevel sample_server (Deliver (sample_event ''logging'' ''info''))
              init_session
            = init_session\<lparr>stdout := stdout init_session @ ''{type:logging}'' @ [CHR 0x0A, CHR 0x0A]\<rparr>"
    using t1 h1 h2 h3 h4 by blast
  have s2: "step sample ?c DebugLevel sample_server (Deliver (sample_event ''lifecycle'' ''x''))
              (init_session\<lparr>stdout := stdout init_session @ ''{type:logging}'' @ [CHR 0x0A, CHR 0x0A]\<rparr>)
            = init_session\<lparr>stdout := stdout init_session @ ''{type:logging}'' @ [CHR 0x0A, CHR 0x0A]\<rparr>
                \<lparr>stdout := stdout (init_session\<lparr>stdout := stdout init_session @ ''{type:logging}'' @ [CHR 0x0A, CHR 0x0A]\<rparr>)
                   @ ''{type:lifecycle}'' @ [CHR 0x0A, CHR 0x0A]\<rparr>"
    using t2 h1 g2 g3 g4 by blast
  have r3: "stdout (session_run sample ?c DebugLevel sample_server
        [Deliver (sample_event ''logging'' ''info''), Deliver (sample_event ''lifecycle'' ''x'')])
       = ''{type:logging}'' @ [CHR 0x0A, CHR 0x0A] @ ''{type:lifecycle}'' @ [CHR 0x0A, CHR 0x0A]"
    unfolding session_run_def fold_simps s1 s2
    by (simp add: init_session_def)
  from h1 h2 h3 h4 r1 r2 r3 show ?thesis by blast
qed

subsection \<open>The first signal ends the session\<close>

lemma init_session_inv: "session_inv init_session"
  by (simp add: session_inv_def init_session_def)

lemma send_inv: "session_inv s \<Longrightarrow> session_inv (send v s)"
  by (cases "chError s") (auto simp: session_inv_def send_def split: option.splits)

lemma session_inv_stdout: "session_inv (s\<lparr>stdout := x\<rparr>) = session_inv s"
  by (simp add: session_inv_def cong: option.case_cong)

lemma session_inv_waiting: "session_inv (s\<lparr>waiting := x\<rparr>) = session_inv s"
  by (simp add: session_inv_def cong: option.case_cong)

lemma receive_inv: "session_inv s \<Longrightarrow> session_inv (step w c lvl d Receive s)"
  by (cases "chError s"; cases "blocked s")
     (auto simp: session_inv_def split: option.splits)

lemma step_inv:
  assumes i: "session_inv s"
  shows "session_inv (step w c lvl d a s)"
proof (cases a)
  case (Deliver e)
  obtain out sig where h: "handler w c lvl (IsClustered d) e = (out, sig)"
    by (cases "handler w c lvl (IsClustered d) e") simp
  show ?thesis
    using i by (cases sig) (simp_all add: Deliver h send_inv session_inv_stdout)
next
  case (Closed r)
  show ?thesis
    using i by (simp add: Closed send_inv session_inv_waiting)
next
  case Receive
  show ?thesis
    unfolding Receive using i by (rule receive_inv)
qed

lemma fold_step_inv:
  "session_inv s \<Longrightarrow> session_inv (fold (step w c lvl d) sched s)"
  by (induction sched arbitrary: s) (simp_all add: step_inv)

lemma session_run_inv: "session_inv (session_run w c lvl d sched)"
  by (simp add: session_run_def fold_step_inv init_session_inv)

lemma send_returned: "returned (send v s) = returned s"
  by (simp add: send_def)

lemma step_returned:
  assumes r: "returned s = Some v"
  shows "returned (step w c lvl d a s) = Some v"
proof (cases a)
  case (Deliver e)
  obtain out sig where h: "handler w c lvl (IsClustered d) e = (out, sig)"
    by (cases "handler w c lvl (IsClustered d) e") simp
  show ?thesis
    using r by (cases sig) (simp_all add: Deliver h send_returned)
next
  case (Closed x)
  show ?thesis
    using r by (simp add: Closed send_returned)
next
  case Receive
  show ?thesis
    using r by (simp add: Receive)
qed

lemma fold_step_returned:
  "returned s = Some v \<Longrightarrow> returned (fold (step w c lvl d) sched s) = Some v"
  by (induction sched arbitrary: s) (simp_all add: step_returned)

lemma receive_first:
  assumes "session_inv s" and "signals s \<noteq> []"
  shows "returned (step w c lvl d Receive s) = Some (hd (signals s))"
proof (cases "returned s")
  case None
  with assms have "chError s \<noteq> []"
    by (auto simp: session_inv_def)
  then obtain x xs where x: "chError s = x # xs"
    by (cases "chError s") auto
  with assms None show ?thesis
    by (simp add: session_inv_def)
next
  case (Some v)
  with assms show ?thesis
    by (simp add: session_inv_def)
qed

lemma signals_no_deliver:
  "no_deliver sched \<Longrightarrow>
   signals (fold (step w c lvl d) sched s) =
     signals s @ (if waiting s then take 1 (closures sched) else [])"
proof (induction sched arbitrary: s)
  case Nil
  show ?case by simp
next
  case (Cons a sched)
  from Cons.prems have nd: "no_deliver sched" and a: "\<not> is_Deliver a"
    by (simp_all add: no_deliver_def)
  show ?case
  proof (cases a)
    case (Deliver e)
    with a show ?thesis by simp
  next
    case (Closed r)
    show ?thesis
      by (simp add: Closed Cons.IH [OF nd] send_def)
  next
    case Receive
    have "signals (step w c lvl d Receive s) = signals s"
      "waiting (step w c lvl d Receive s) = waiting s"
      by (simp_all split: option.splits list.splits)
    then show ?thesis
      by (simp add: Receive Cons.IH [OF nd] del: step.simps)
  qed
qed

lemma session_run_append:
  "session_run w c lvl d (sched @ rest) =
     fold (step w c lvl d) rest (session_run w c lvl d sched)"
  by (simp add: session_run_def)

lemma send_fields:
  "signals (send v s) = signals s @ [v]"
  "waiting (send v s) = waiting s"
  by (simp_all add: send_def)

lemma receive_fields:
  "signals (step w c lvl d Receive s) = signals s"
  "waiting (step w c lvl d Receive s) = waiting s"
  by (simp_all split: option.splits list.splits)

lemma signals_sends:
  "signals (fold (step w c lvl d) sched s) = signals s @ sends w c lvl d (waiting s) sched"
proof (induction sched arbitrary: s)
  case Nil
  show ?case by simp
next
  case (Cons a sched)
  show ?case
  proof (cases a)
    case (Deliver e)
    obtain out sig where h: "handler w c lvl (IsClustered d) e = (out, sig)"
      by (cases "handler w c lvl (IsClustered d) e") simp
    show ?thesis
      by (cases sig) (simp_all add: Deliver h Cons.IH send_fields)
  next
    case (Closed r)
    show ?thesis
      by (simp add: Closed Cons.IH send_fields)
  next
    case Receive
    show ?thesis
      by (simp add: Receive Cons.IH receive_fields del: step.simps)
  qed
qed

lemma signals_session_run:
  "signals (session_run w c lvl d sched) = signalled w c lvl d sched"
  using signals_sends [of w c lvl d sched init_session]
  by (simp add: session_run_def signalled_def init_session_def)

lemma sends_silent_prefix:
  "sends w c lvl d True pre = [] \<Longrightarrow>
   sends w c lvl d True (pre @ sched) = sends w c lvl d True sched"
proof (induction pre)
  case Nil
  show ?case by simp
next
  case (Cons a pre)
  show ?case
  proof (cases a)
    case (Deliver e)
    with Cons show ?thesis
      by (cases "snd (handler w c lvl (IsClustered d) e)") simp_all
  next
    case (Closed r)
    with Cons.prems show ?thesis by simp
  next
    case Receive
    with Cons show ?thesis by simp
  qed
qed

text \<open>
  C9. Once the handler is registered, \<open>Run\<close> returns exactly one value, the first that is
  put on the channel, whatever the schedule. While nothing has been signalled \<open>Run\<close>
  waits. As soon as a value has been signalled, by a handler call that reports an error
  or by the listener's \<open>Wait\<close> returning, the next receive of \<open>Run\<close> returns the first
  such value, so the receive cannot be stuck, and whatever happens afterwards leaves
  the returned value as it is: a later signal is discarded, not combined with it. In
  particular, if a handler call reports an error before anything else is signalled,
  \<open>Run\<close> returns that error even if the feed closes afterwards; if \<open>Wait\<close> returns before
  anything else is signalled, \<open>Run\<close> returns its result even if a handler reports an
  error afterwards; and if the feed closes cleanly with no event delivered and no
  handler error, \<open>Run\<close> returns nil, that is, no error.
\<close>

theorem first_signal_wins:
  "Run_prologue w c0 args = (Await c lvl d, cs) \<longrightarrow>
     (signalled w c lvl d sched = [] \<longrightarrow> result (Run w c0 args sched) = None)
   \<and> (signalled w c lvl d sched \<noteq> [] \<longrightarrow>
        result (Run w c0 args (sched @ Receive # rest))
          = Some (hd (signalled w c lvl d sched)))
   \<and> (result (Run w c0 args sched) = Some v \<longrightarrow>
        signalled w c lvl d sched \<noteq> [] \<and> v = hd (signalled w c lvl d sched)
        \<and> result (Run w c0 args (sched @ rest)) = Some v)
   \<and> (signalled w c lvl d pre = []
        \<and> handler w c lvl (IsClustered d) event = (out, Some err) \<longrightarrow>
        result (Run w c0 args (pre @ Deliver event # mid @ Receive # rest))
          = Some (Some err))
   \<and> (signalled w c lvl d pre = [] \<longrightarrow>
        result (Run w c0 args (pre @ Closed r # mid @ Receive # rest)) = Some r)
   \<and> (no_deliver sched \<and> closures sched \<noteq> [] \<and> hd (closures sched) = None \<longrightarrow>
        result (Run w c0 args (sched @ Receive # rest)) = Some None)"
proof
  assume p: "Run_prologue w c0 args = (Await c lvl d, cs)"
  have run: "result (Run w c0 args xs) = returned (session_run w c lvl d xs)" for xs
    by (simp add: Run_def p Let_def)
  have inv: "session_inv (session_run w c lvl d xs)" for xs
    by (rule session_run_inv)
  have A: "result (Run w c0 args sched) = None" if "signalled w c lvl d sched = []"
  proof (cases "returned (session_run w c lvl d sched)")
    case None
    then show ?thesis by (simp add: run)
  next
    case (Some x)
    with inv [of sched] that show ?thesis
      by (simp add: session_inv_def signals_session_run)
  qed
  have B: "result (Run w c0 args (xs @ Receive # ys)) = Some (hd (signalled w c lvl d xs))"
    if "signalled w c lvl d xs \<noteq> []" for xs ys
  proof -
    have ne: "signals (session_run w c lvl d xs) \<noteq> []"
      using that by (simp add: signals_session_run)
    have "returned (session_run w c lvl d (xs @ [Receive]))
            = Some (hd (signalled w c lvl d xs))"
      using receive_first [OF inv ne, of w c lvl d]
      by (simp add: session_run_append signals_session_run)
    then have "returned (session_run w c lvl d ((xs @ [Receive]) @ ys))
            = Some (hd (signalled w c lvl d xs))"
      by (simp only: session_run_append [of w c lvl d "xs @ [Receive]" ys]
          fold_step_returned)
    then show ?thesis by (simp add: run)
  qed
  have C: "signalled w c lvl d sched \<noteq> [] \<and> v = hd (signalled w c lvl d sched)
        \<and> result (Run w c0 args (sched @ rest)) = Some v"
    if "result (Run w c0 args sched) = Some v"
  proof -
    from that have r: "returned (session_run w c lvl d sched) = Some v"
      by (simp add: run)
    with inv [of sched]
    have "signalled w c lvl d sched \<noteq> [] \<and> v = hd (signalled w c lvl d sched)"
      by (auto simp: session_inv_def signals_session_run)
    moreover have "result (Run w c0 args (sched @ rest)) = Some v"
      using r by (simp add: run session_run_append fold_step_returned)
    ultimately show ?thesis by simp
  qed
  have D: "result (Run w c0 args (pre @ Deliver event # mid @ Receive # rest))
          = Some (Some err)"
    if h: "signalled w c lvl d pre = []"
      "handler w c lvl (IsClustered d) event = (out, Some err)"
  proof -
    have s: "signalled w c lvl d (pre @ Deliver event # mid)
               = Some err # sends w c lvl d True mid"
      using h by (simp add: signalled_def sends_silent_prefix)
    have "result (Run w c0 args ((pre @ Deliver event # mid) @ Receive # rest))
            = Some (hd (signalled w c lvl d (pre @ Deliver event # mid)))"
      by (rule B) (simp add: s)
    then show ?thesis by (simp add: s)
  qed
  have E: "result (Run w c0 args (pre @ Closed r # mid @ Receive # rest)) = Some r"
    if h: "signalled w c lvl d pre = []"
  proof -
    have s: "signalled w c lvl d (pre @ Closed r # mid) = r # sends w c lvl d False mid"
      using h by (simp add: signalled_def sends_silent_prefix)
    have "result (Run w c0 args ((pre @ Closed r # mid) @ Receive # rest))
            = Some (hd (signalled w c lvl d (pre @ Closed r # mid)))"
      by (rule B) (simp add: s)
    then show ?thesis by (simp add: s)
  qed
  have F: "result (Run w c0 args (sched @ Receive # rest)) = Some None"
    if h: "no_deliver sched" "closures sched \<noteq> []" "hd (closures sched) = None"
  proof -
    have "signals (session_run w c lvl d sched) = take 1 (closures sched)"
      using signals_no_deliver [OF h(1), of w c lvl d init_session]
      by (simp add: session_run_def init_session_def)
    then have s: "signalled w c lvl d sched = [None]"
      using h(2,3) by (cases "closures sched") (simp_all add: signals_session_run)
    have "result (Run w c0 args (sched @ Receive # rest))
            = Some (hd (signalled w c lvl d sched))"
      by (rule B) (simp add: s)
    then show ?thesis by (simp add: s)
  qed
  from A B [of sched rest] C D E F
  show "(signalled w c lvl d sched = [] \<longrightarrow> result (Run w c0 args sched) = None)
   \<and> (signalled w c lvl d sched \<noteq> [] \<longrightarrow>
        result (Run w c0 args (sched @ Receive # rest))
          = Some (hd (signalled w c lvl d sched)))
   \<and> (result (Run w c0 args sched) = Some v \<longrightarrow>
        signalled w c lvl d sched \<noteq> [] \<and> v = hd (signalled w c lvl d sched)
        \<and> result (Run w c0 args (sched @ rest)) = Some v)
   \<and> (signalled w c lvl d pre = []
        \<and> handler w c lvl (IsClustered d) event = (out, Some err) \<longrightarrow>
        result (Run w c0 args (pre @ Deliver event # mid @ Receive # rest))
          = Some (Some err))
   \<and> (signalled w c lvl d pre = [] \<longrightarrow>
        result (Run w c0 args (pre @ Closed r # mid @ Receive # rest)) = Some r)
   \<and> (no_deliver sched \<and> closures sched \<noteq> [] \<and> hd (closures sched) = None \<longrightarrow>
        result (Run w c0 args (sched @ Receive # rest)) = Some None)"
    by blast
qed

lemma sample_handler_unsupported:
  "handler sample (flags ''pretty'' False []) lvl cl (sample_event ''operation'' [])
     = ([], Some (ErrExternal ''Not supported event type''))"
  by (simp add: handler_def flags_def sample_def sample_event_def)

lemma sample_handler_info:
  "handler sample (flags ''pretty'' False []) DebugLevel True (sample_event ''logging'' ''info'')
     = (''4 [node1] started'' @ [CHR 0x0A], None)"
  by (simp add: handler_def flags_def sample_def sample_event_def normalize_level_def
      ParseLevel_info make_entry_def digits.simps)

lemma sample_prologue:
  "Run_prologue sample (flags ''pretty'' False []) [] =
     (Await (flags ''pretty'' False []) DebugLevel sample_server,
      [CallParseRemote [], CallGetInstanceServer ''local'', CallGetEvents, CallAddHandler []])"
  by (simp add: Run_prologue_def validate_def setup_format_def flags_def sample_def
      connect_def sample_server_def sample_listener_def open_call_def)

theorem first_signal_wins_witness:
  "Run_prologue sample (flags ''pretty'' False []) [] =
     (Await (flags ''pretty'' False []) DebugLevel sample_server,
      [CallParseRemote [], CallGetInstanceServer ''local'', CallGetEvents, CallAddHandler []])
   \<and> signalled sample (flags ''pretty'' False []) DebugLevel sample_server
        [Deliver (sample_event ''logging'' ''info'')] = []
   \<and> handler sample (flags ''pretty'' False []) DebugLevel (IsClustered sample_server)
        (sample_event ''operation'' [])
       = ([], Some (ErrExternal ''Not supported event type''))
   \<and> result (Run sample (flags ''pretty'' False []) []
        [Deliver (sample_event ''logging'' ''info'')]) = None
   \<and> result (Run sample (flags ''pretty'' False []) []
        ([Deliver (sample_event ''logging'' ''info'')]
         @ Deliver (sample_event ''operation'' []) # [Closed None] @ Receive # []))
       = Some (Some (ErrExternal ''Not supported event type''))
   \<and> result (Run sample (flags ''pretty'' False []) []
        ([Deliver (sample_event ''logging'' ''info'')]
         @ Closed (Some (ErrExternal ''connection lost''))
           # [Deliver (sample_event ''operation'' [])] @ Receive # []))
       = Some (Some (ErrExternal ''connection lost''))
   \<and> signalled sample (flags ''pretty'' False []) DebugLevel sample_server [] = []
   \<and> result (Run sample (flags ''pretty'' False []) [] ([] @ Closed None # [] @ Receive # []))
       = Some None"
proof -
  let ?c = "flags ''pretty'' False []"
  let ?good = "sample_event ''logging'' ''info''"
  let ?bad = "sample_event ''operation'' []"
  let ?E = "ErrExternal ''Not supported event type''"
  let ?L = "ErrExternal ''connection lost''"
  let ?cs = "[CallParseRemote [], CallGetInstanceServer ''local'', CallGetEvents,
              CallAddHandler []]"
  have cl: "IsClustered sample_server = True"
    by (simp add: sample_server_def)
  have p: "Run_prologue sample ?c [] = (Await ?c DebugLevel sample_server, ?cs)"
    by (rule sample_prologue)
  have q: "signalled sample ?c DebugLevel sample_server [Deliver ?good] = []"
    by (simp add: signalled_def cl sample_handler_info)
  have q0: "signalled sample ?c DebugLevel sample_server [] = []"
    by (simp add: signalled_def)
  have h: "handler sample ?c DebugLevel (IsClustered sample_server) ?bad = ([], Some ?E)"
    by (rule sample_handler_unsupported)
  note t1 = first_signal_wins [where w = sample and ?c0.0 = ?c and args = "[]"
      and c = ?c and lvl = DebugLevel and d = sample_server and cs = ?cs
      and sched = "[Deliver ?good]" and pre = "[Deliver ?good]" and event = ?bad
      and out = "[]" and err = ?E and mid = "[Closed None]" and rest = "[]",
      rule_format, OF p]
  note t2 = first_signal_wins [where w = sample and ?c0.0 = ?c and args = "[]"
      and c = ?c and lvl = DebugLevel and d = sample_server and cs = ?cs
      and pre = "[Deliver ?good]" and r = "Some ?L" and mid = "[Deliver ?bad]"
      and rest = "[]", rule_format, OF p]
  note t3 = first_signal_wins [where w = sample and ?c0.0 = ?c and args = "[]"
      and c = ?c and lvl = DebugLevel and d = sample_server and cs = ?cs
      and pre = "[]" and r = None and mid = "[]" and rest = "[]", rule_format, OF p]
  have r0: "result (Run sample ?c [] [Deliver ?good]) = None"
    using t1 [THEN conjunct1] q by (rule mp)
  have qh: "signalled sample ?c DebugLevel sample_server [Deliver ?good] = []
        \<and> handler sample ?c DebugLevel (IsClustered sample_server) ?bad = ([], Some ?E)"
    using q h by (rule conjI)
  have r1: "result (Run sample ?c []
        ([Deliver ?good] @ Deliver ?bad # [Closed None] @ Receive # [])) = Some (Some ?E)"
    using t1 [THEN conjunct2, THEN conjunct2, THEN conjunct2, THEN conjunct1] qh
    by (rule mp)
  have r2: "result (Run sample ?c []
        ([Deliver ?good] @ Closed (Some ?L) # [Deliver ?bad] @ Receive # []))
       = Some (Some ?L)"
    using t2 [THEN conjunct2, THEN conjunct2, THEN conjunct2, THEN conjunct2,
        THEN conjunct1] q
    by (rule mp)
  have r3: "result (Run sample ?c [] ([] @ Closed None # [] @ Receive # [])) = Some None"
    using t3 [THEN conjunct2, THEN conjunct2, THEN conjunct2, THEN conjunct2,
        THEN conjunct1] q0
    by (rule mp)
  from p q h r0 r1 r2 q0 r3 show ?thesis by (intro conjI)
qed

end
